theory Spec2Isabelle
  imports Main "HOL-Library.Word" "HOL-Library.AList" "HOL-Library.Sublist"
begin

section \<open>Domain: errors, contexts, tasks\<close>

text \<open>
  Go's \<^verbatim>\<open>uint64\<close> is a 64-bit word: \<open>+\<close> wraps around, as \<^verbatim>\<open>m.serialID++\<close> does.
\<close>

type_synonym uint64 = "64 word"

text \<open>
  Error values. \<open>ErrNotExists\<close> and \<open>ErrEmptyTitle\<close> are the sentinels of
  \<^verbatim>\<open>internal/domain/error.go\<close>; \<open>Canceled\<close> and \<open>DeadlineExceeded\<close> are the two errors
  a \<^verbatim>\<open>context.Context\<close> reports; \<open>New msg\<close> is any other error made by
  \<^verbatim>\<open>errors.New(msg)\<close> (the storage mocks of the service tests return such errors);
  \<open>Errorf msg err\<close> is \<^verbatim>\<open>fmt.Errorf(msg + "%w", err)\<close>, an error that wraps \<open>err\<close>.
\<close>

datatype error =
    ErrNotExists
  | ErrEmptyTitle
  | Canceled
  | DeadlineExceeded
  | New string
  | Errorf string error

fun Error :: "error \<Rightarrow> string" where
  "Error ErrNotExists = ''resource not found in storage''"
| "Error ErrEmptyTitle = ''task must have non empty title''"
| "Error Canceled = ''context canceled''"
| "Error DeadlineExceeded = ''context deadline exceeded''"
| "Error (New msg) = msg"
| "Error (Errorf msg err) = msg @ Error err"

text \<open>\<^verbatim>\<open>errors.Unwrap\<close>: the error directly wrapped by \<^verbatim>\<open>%w\<close>, if any.\<close>

fun Unwrap :: "error \<Rightarrow> error option" where
  "Unwrap (Errorf msg err) = Some err"
| "Unwrap _ = None"

text \<open>\<^verbatim>\<open>errors.Is\<close>: the error or one of the errors it wraps equals the target.\<close>

fun errors_Is :: "error \<Rightarrow> error \<Rightarrow> bool" where
  "errors_Is (Errorf msg err) target =
     (Errorf msg err = target \<or> errors_Is err target)"
| "errors_Is err target = (err = target)"

text \<open>
  A \<^verbatim>\<open>context.Context\<close> changes with time: \<^verbatim>\<open>ctx.Err()\<close> returns \<^verbatim>\<open>nil\<close> until the
  context is done and the same non-nil error ever after. The model makes the time
  explicit: \<open>Background\<close> is never done, \<open>Done err\<close> is done already, and
  \<open>NotYet ctx\<close> answers \<^verbatim>\<open>nil\<close> to the next call of \<^verbatim>\<open>Err\<close> and is \<open>ctx\<close> afterwards.
  \<open>ctx_Err\<close> is one call of \<^verbatim>\<open>ctx.Err()\<close>: its result and the context as later calls
  see it.
\<close>

datatype "context" = Background | Done error | NotYet "context"

fun ctx_Err :: "context \<Rightarrow> error option \<times> context" where
  "ctx_Err Background = (None, Background)"
| "ctx_Err (Done err) = (Some err, Done err)"
| "ctx_Err (NotYet ctx) = (None, ctx)"

text \<open>\<open>live n ctx\<close>: the next \<open>n\<close> calls of \<^verbatim>\<open>ctx.Err()\<close> return \<^verbatim>\<open>nil\<close>.\<close>

fun live :: "nat \<Rightarrow> context \<Rightarrow> bool" where
  "live 0 ctx = True"
| "live (Suc n) Background = True"
| "live (Suc n) (Done err) = False"
| "live (Suc n) (NotYet ctx) = live n ctx"

text \<open>\<open>after n ctx\<close>: the context as seen after \<open>n\<close> calls of \<^verbatim>\<open>ctx.Err()\<close>.\<close>

fun after :: "nat \<Rightarrow> context \<Rightarrow> context" where
  "after 0 ctx = ctx"
| "after (Suc n) ctx = after n (snd (ctx_Err ctx))"

text \<open>\<^verbatim>\<open>internal/domain/task.go\<close>; \<open>Task\<close> embeds \<open>TaskSchema\<close>.\<close>

record TaskSchema =
  Title :: string
  Description :: string
  IsDone :: bool

record Task = TaskSchema +
  ID :: uint64

text \<open>
  \<^verbatim>\<open>domain.Task{ID: id, TaskSchema: task}\<close>. The name \<open>id\<close> is a constant of HOL, so
  an identifier is \<open>ident\<close> throughout.
\<close>

definition mkTask :: "uint64 \<Rightarrow> TaskSchema \<Rightarrow> Task" where
  "mkTask ident task =
     \<lparr>Title = Title task, Description = Description task, IsDone = IsDone task, ID = ident\<rparr>"

text \<open>
  \<^verbatim>\<open>domain.Elem[V]\<close>, the pair of an identifier and a value that \<^verbatim>\<open>GetAll\<close> lists
  (\<^verbatim>\<open>Elem[V]{ID: id, Value: value}\<close>). Its field \<^verbatim>\<open>ID\<close> is \<open>ElemID\<close> here, apart from
  the field \<open>ID\<close> of \<open>Task\<close>.
\<close>

datatype 'v Elem = Elem (ElemID: uint64) (Value: 'v)

section \<open>Storage engine\<close>

text \<open>
  \<^verbatim>\<open>InMemory[V]\<close>: the sequence counter and the map. The map is an association list
  with \<open>map_of\<close> as lookup, \<open>AList.update\<close> as \<^verbatim>\<open>m.data[id] = value\<close> and
  \<open>AList.delete\<close> as \<^verbatim>\<open>delete(m.data, id)\<close>; the order of the list stands for the
  unspecified order in which Go ranges over a map. The mutex is not modelled:
  the operations run one after the other.
\<close>

record 'v InMemory =
  serialID :: uint64
  data :: "(uint64 \<times> 'v) list"

definition NewInMemory :: "'v InMemory" where
  "NewInMemory = \<lparr>serialID = 1, data = []\<rparr>"

text \<open>
  Every operation returns its result, the store and the context after the calls of
  \<^verbatim>\<open>ctx.Err()\<close> it made. A result is \<open>Inl\<close> the error or \<open>Inr\<close> the value; the zero
  value that Go returns beside a non-nil error is left out. Where Go returns an
  \<^verbatim>\<open>error\<close> only, the result is an \<open>error option\<close> and \<open>None\<close> is \<^verbatim>\<open>nil\<close>.
\<close>

definition InMemory_Save ::
  "context \<Rightarrow> 'v \<Rightarrow> uint64 \<Rightarrow> 'v InMemory \<Rightarrow> (error + uint64) \<times> 'v InMemory \<times> context" where
  "InMemory_Save ctx val ident m =
     (case ctx_Err ctx of
        (Some err, ctx1) \<Rightarrow> (Inl err, m, ctx1)
      | (None, ctx1) \<Rightarrow>
          (case ctx_Err ctx1 of
             (Some err, ctx2) \<Rightarrow> (Inl err, m, ctx2)
           | (None, ctx2) \<Rightarrow>
               (if ident = 0
                then (Inr (serialID m),
                      m\<lparr>serialID := serialID m + 1,
                        data := AList.update (serialID m) val (data m)\<rparr>, ctx2)
                else (Inr ident, m\<lparr>data := AList.update ident val (data m)\<rparr>, ctx2))))"

definition InMemory_GetByID ::
  "context \<Rightarrow> uint64 \<Rightarrow> 'v InMemory \<Rightarrow> (error + 'v) \<times> 'v InMemory \<times> context" where
  "InMemory_GetByID ctx ident m =
     (case ctx_Err ctx of
        (Some err, ctx1) \<Rightarrow> (Inl err, m, ctx1)
      | (None, ctx1) \<Rightarrow>
          (case ctx_Err ctx1 of
             (Some err, ctx2) \<Rightarrow> (Inl err, m, ctx2)
           | (None, ctx2) \<Rightarrow>
               (case map_of (data m) ident of
                  None \<Rightarrow> (Inl ErrNotExists, m, ctx2)
                | Some val \<Rightarrow> (Inr val, m, ctx2))))"

definition InMemory_GetAll ::
  "context \<Rightarrow> 'v InMemory \<Rightarrow> (error + 'v Elem list) \<times> 'v InMemory \<times> context" where
  "InMemory_GetAll ctx m =
     (case ctx_Err ctx of
        (Some err, ctx1) \<Rightarrow> (Inl err, m, ctx1)
      | (None, ctx1) \<Rightarrow>
          (case ctx_Err ctx1 of
             (Some err, ctx2) \<Rightarrow> (Inl err, m, ctx2)
           | (None, ctx2) \<Rightarrow> (Inr (map (\<lambda>(ident, val). Elem ident val) (data m)), m, ctx2)))"

definition InMemory_Delete ::
  "context \<Rightarrow> uint64 \<Rightarrow> 'v InMemory \<Rightarrow> error option \<times> 'v InMemory \<times> context" where
  "InMemory_Delete ctx ident m =
     (case ctx_Err ctx of
        (Some err, ctx1) \<Rightarrow> (Some err, m, ctx1)
      | (None, ctx1) \<Rightarrow>
          (case ctx_Err ctx1 of
             (Some err, ctx2) \<Rightarrow> (Some err, m, ctx2)
           | (None, ctx2) \<Rightarrow>
               (case map_of (data m) ident of
                  None \<Rightarrow> (Some ErrNotExists, m, ctx2)
                | Some val \<Rightarrow> (None, m\<lparr>data := AList.delete ident (data m)\<rparr>, ctx2))))"

section \<open>Validation\<close>

text \<open>
  \<^verbatim>\<open>strings.TrimSpace\<close> belongs to Go's standard library, not to the repository. It
  removes the leading and the trailing white space of a string, as Unicode defines it
  (\<^verbatim>\<open>unicode.IsSpace\<close>). A Go string is a sequence of bytes, read as UTF-8: the white
  space code points are U+0009 to U+000D, U+0020, U+0085, U+00A0, U+1680, U+2000 to
  U+200A, U+2028, U+2029, U+202F, U+205F and U+3000, and \<open>White_Space\<close> lists their
  UTF-8 encodings. A byte sequence that is not one of these encodings (another code
  point, or invalid UTF-8, which decodes to U+FFFD) is not white space.
\<close>

definition White_Space :: "string list" where
  "White_Space =
     [[CHR 0x09], [CHR 0x0A], [CHR 0x0B], [CHR 0x0C], [CHR 0x0D], [CHR 0x20],
      [CHR 0xC2, CHR 0x85], [CHR 0xC2, CHR 0xA0],
      [CHR 0xE1, CHR 0x9A, CHR 0x80],
      [CHR 0xE2, CHR 0x80, CHR 0x80], [CHR 0xE2, CHR 0x80, CHR 0x81],
      [CHR 0xE2, CHR 0x80, CHR 0x82], [CHR 0xE2, CHR 0x80, CHR 0x83],
      [CHR 0xE2, CHR 0x80, CHR 0x84], [CHR 0xE2, CHR 0x80, CHR 0x85],
      [CHR 0xE2, CHR 0x80, CHR 0x86], [CHR 0xE2, CHR 0x80, CHR 0x87],
      [CHR 0xE2, CHR 0x80, CHR 0x88], [CHR 0xE2, CHR 0x80, CHR 0x89],
      [CHR 0xE2, CHR 0x80, CHR 0x8A],
      [CHR 0xE2, CHR 0x80, CHR 0xA8], [CHR 0xE2, CHR 0x80, CHR 0xA9],
      [CHR 0xE2, CHR 0x80, CHR 0xAF],
      [CHR 0xE2, CHR 0x81, CHR 0x9F],
      [CHR 0xE3, CHR 0x80, CHR 0x80]]"

text \<open>
  \<open>width table s\<close>: the length of the first entry of \<open>table\<close> that \<open>s\<close> starts
  with, 0 when there is none. \<open>strip table s\<close> removes such entries from the front of
  \<open>s\<close> until none is left.
\<close>

definition width :: "string list \<Rightarrow> string \<Rightarrow> nat" where
  "width table s =
     (case find (\<lambda>e. e \<noteq> [] \<and> prefix e s) table of None \<Rightarrow> 0 | Some e \<Rightarrow> length e)"

function strip :: "string list \<Rightarrow> string \<Rightarrow> string" where
  "strip table s = (if width table s = 0 then s else strip table (drop (width table s) s))"
  by pat_completeness auto
termination
proof (relation "measure (\<lambda>(table, s). length s)")
  show "wf (measure (\<lambda>(table, s). length s))" by simp
next
  fix table :: "string list" and s :: string
  assume w: "width table s \<noteq> 0"
  have "s \<noteq> []"
  proof
    assume "s = []"
    then have "find (\<lambda>e. e \<noteq> [] \<and> prefix e s) table = None"
      by (simp add: find_None_iff)
    then show False using w by (simp add: width_def)
  qed
  then show "((table, drop (width table s) s), (table, s)) \<in> measure (\<lambda>(table, s). length s)"
    using w by simp
qed

declare strip.simps [simp del]

definition TrimLeft :: "string \<Rightarrow> string" where
  "TrimLeft s = strip White_Space s"

text \<open>The trailing white space is the leading white space of the reversed string.\<close>

definition TrimRight :: "string \<Rightarrow> string" where
  "TrimRight s = rev (strip (map rev White_Space) (rev s))"

definition TrimSpace :: "string \<Rightarrow> string" where
  "TrimSpace s = TrimRight (TrimLeft s)"

text \<open>\<^verbatim>\<open>internal/usecases/utils/validate.go\<close>; \<open>None\<close> is \<^verbatim>\<open>nil\<close>.\<close>

definition Validate :: "TaskSchema \<Rightarrow> error option" where
  "Validate task = (if TrimSpace (Title task) = [] then Some ErrEmptyTitle else None)"

section \<open>Task service\<close>

text \<open>
  The interface \<^verbatim>\<open>TaskStorage\<close>: any storage with these four operations, over its
  own state \<open>'s\<close> and its own view \<open>'c\<close> of the context. The service hands the
  context it was given to the storage and never looks at it.
\<close>

record ('s, 'c) TaskStorage =
  Save :: "'c \<Rightarrow> TaskSchema \<Rightarrow> uint64 \<Rightarrow> 's \<Rightarrow> (error + uint64) \<times> 's \<times> 'c"
  GetByID :: "'c \<Rightarrow> uint64 \<Rightarrow> 's \<Rightarrow> (error + TaskSchema) \<times> 's \<times> 'c"
  GetAll :: "'c \<Rightarrow> 's \<Rightarrow> (error + TaskSchema Elem list) \<times> 's \<times> 'c"
  Delete :: "'c \<Rightarrow> uint64 \<Rightarrow> 's \<Rightarrow> error option \<times> 's \<times> 'c"

record ('s, 'c) TaskService =
  repo :: "('s, 'c) TaskStorage"

definition NewTaskService :: "('s, 'c) TaskStorage \<Rightarrow> ('s, 'c) TaskService" where
  "NewTaskService storage = \<lparr>repo = storage\<rparr>"

definition TaskService_Create ::
  "('s, 'c) TaskService \<Rightarrow> 'c \<Rightarrow> string \<Rightarrow> string \<Rightarrow> 's \<Rightarrow> (error + Task) \<times> 's \<times> 'c" where
  "TaskService_Create s ctx title description st =
     (let task = \<lparr>Title = title, Description = description, IsDone = False\<rparr> in
      case Validate task of
        Some err \<Rightarrow> (Inl (Errorf ''validation failed: '' err), st, ctx)
      | None \<Rightarrow>
          (case Save (repo s) ctx task 0 st of
             (Inl err, st', ctx') \<Rightarrow> (Inl (Errorf ''failed to save task: '' err), st', ctx')
           | (Inr ident, st', ctx') \<Rightarrow> (Inr (mkTask ident task), st', ctx')))"

definition TaskService_GetByID ::
  "('s, 'c) TaskService \<Rightarrow> 'c \<Rightarrow> uint64 \<Rightarrow> 's \<Rightarrow> (error + Task) \<times> 's \<times> 'c" where
  "TaskService_GetByID s ctx ident st =
     (case GetByID (repo s) ctx ident st of
        (Inl err, st', ctx') \<Rightarrow> (Inl err, st', ctx')
      | (Inr task, st', ctx') \<Rightarrow> (Inr (mkTask ident task), st', ctx'))"

definition TaskService_GetAll ::
  "('s, 'c) TaskService \<Rightarrow> 'c \<Rightarrow> 's \<Rightarrow> (error + Task list) \<times> 's \<times> 'c" where
  "TaskService_GetAll s ctx st =
     (case GetAll (repo s) ctx st of
        (Inl err, st', ctx') \<Rightarrow> (Inl (Errorf ''failed to get tasks: '' err), st', ctx')
      | (Inr elems, st', ctx') \<Rightarrow>
          (Inr (map (\<lambda>elem. mkTask (ElemID elem) (Value elem)) elems), st', ctx'))"

definition TaskService_Update ::
  "('s, 'c) TaskService \<Rightarrow> 'c \<Rightarrow> uint64 \<Rightarrow> string \<Rightarrow> string \<Rightarrow> bool \<Rightarrow> 's
     \<Rightarrow> error option \<times> 's \<times> 'c" where
  "TaskService_Update s ctx ident title description isDone st =
     (case GetByID (repo s) ctx ident st of
        (Inl err, st', ctx') \<Rightarrow> (Some err, st', ctx')
      | (Inr task, st', ctx') \<Rightarrow>
          (let task = task\<lparr>Title := title, Description := description, IsDone := isDone\<rparr> in
           case Validate task of
             Some err \<Rightarrow> (Some (Errorf ''validation failed: '' err), st', ctx')
           | None \<Rightarrow>
               (case Save (repo s) ctx' task ident st' of
                  (Inl err, st'', ctx'') \<Rightarrow>
                    (Some (Errorf ''failed to update task: '' err), st'', ctx'')
                | (Inr _, st'', ctx'') \<Rightarrow> (None, st'', ctx''))))"

definition TaskService_Delete ::
  "('s, 'c) TaskService \<Rightarrow> 'c \<Rightarrow> uint64 \<Rightarrow> 's \<Rightarrow> error option \<times> 's \<times> 'c" where
  "TaskService_Delete s ctx ident st =
     (case Delete (repo s) ctx ident st of
        (Some err, st', ctx') \<Rightarrow> (Some err, st', ctx')
      | (None, st', ctx') \<Rightarrow> (None, st', ctx'))"

text \<open>
  \<^verbatim>\<open>cmd/main.go\<close> builds the service on the in-memory store of tasks:
  \<^verbatim>\<open>usecases.NewTaskService(storage.NewInMemory[domain.TaskSchema]())\<close>.
\<close>

definition InMemory_TaskStorage :: "(TaskSchema InMemory, context) TaskStorage" where
  "InMemory_TaskStorage =
     \<lparr>Save = InMemory_Save, GetByID = InMemory_GetByID,
      GetAll = InMemory_GetAll, Delete = InMemory_Delete\<rparr>"

definition service :: "(TaskSchema InMemory, context) TaskService" where
  "service = NewTaskService InMemory_TaskStorage"

section \<open>Sequences of calls\<close>

text \<open>
  A run of auto-assigned saves: \<^verbatim>\<open>Save(ctx, value, 0)\<close> for each pair of the list, one
  after the other on the same store; the results in the order of the calls.
\<close>

fun auto_saves :: "(context \<times> 'v) list \<Rightarrow> 'v InMemory \<Rightarrow> (error + uint64) list" where
  "auto_saves [] m = []"
| "auto_saves ((ctx, val) # calls) m =
     (case InMemory_Save ctx val 0 m of (r, m', _) \<Rightarrow> r # auto_saves calls m')"

text \<open>The identifiers that the successful calls returned.\<close>

fun identifiers :: "(error + uint64) list \<Rightarrow> uint64 list" where
  "identifiers [] = []"
| "identifiers (Inl err # rs) = identifiers rs"
| "identifiers (Inr ident # rs) = ident # identifiers rs"

text \<open>
  A request to the task service, with the context of the call, and the store after
  the service has handled it; \<open>serve\<close> handles a list of requests in order.
\<close>

datatype request =
    CreateTask "context" string string
  | GetTask "context" uint64
  | ListTasks "context"
  | UpdateTask "context" uint64 string string bool
  | DeleteTask "context" uint64

fun handle :: "request \<Rightarrow> TaskSchema InMemory \<Rightarrow> TaskSchema InMemory" where
  "handle (CreateTask ctx title description) m =
     fst (snd (TaskService_Create service ctx title description m))"
| "handle (GetTask ctx ident) m = fst (snd (TaskService_GetByID service ctx ident m))"
| "handle (ListTasks ctx) m = fst (snd (TaskService_GetAll service ctx m))"
| "handle (UpdateTask ctx ident title description isDone) m =
     fst (snd (TaskService_Update service ctx ident title description isDone m))"
| "handle (DeleteTask ctx ident) m = fst (snd (TaskService_Delete service ctx ident m))"

fun serve :: "request list \<Rightarrow> TaskSchema InMemory \<Rightarrow> TaskSchema InMemory" where
  "serve [] m = m"
| "serve (r # rs) m = serve rs (handle r m)"

section \<open>Contexts and the storage operations\<close>

lemma live_Background [simp]: "live n Background"
  by (cases n) simp_all

lemma live_2_iff:
  "live (Suc (Suc 0)) ctx \<longleftrightarrow>
     ctx = Background \<or> (\<exists>c. ctx = NotYet c \<and> (c = Background \<or> (\<exists>d. c = NotYet d)))"
  by (cases ctx; simp; rename_tac c; case_tac c; simp)

lemma not_live_2:
  "\<not> live (Suc (Suc 0)) ctx \<Longrightarrow> \<exists>err. ctx = Done err \<or> ctx = NotYet (Done err)"
  by (cases ctx; simp; rename_tac c; case_tac c; simp)

lemma live_mono: "live (Suc n) ctx \<Longrightarrow> live n ctx"
  by (induction n ctx rule: live.induct) simp_all

lemma live_after: "live (n + k) ctx \<Longrightarrow> live k (after n ctx)"
proof (induction n arbitrary: ctx)
  case 0 then show ?case by simp
next
  case (Suc n)
  then show ?case by (cases ctx) simp_all
qed

lemma live_le: "live n ctx \<Longrightarrow> k \<le> n \<Longrightarrow> live k ctx"
  by (induction n arbitrary: k) (auto simp: le_Suc_eq dest: live_mono)

lemma InMemory_Save_live:
  "live 2 ctx \<Longrightarrow> InMemory_Save ctx v ident m =
     (if ident = 0
      then (Inr (serialID m),
            m\<lparr>serialID := serialID m + 1, data := AList.update (serialID m) v (data m)\<rparr>,
            after 2 ctx)
      else (Inr ident, m\<lparr>data := AList.update ident v (data m)\<rparr>, after 2 ctx))"
  by (auto simp: live_2_iff InMemory_Save_def numeral_2_eq_2)

lemma InMemory_Save_fired:
  "\<not> live 2 ctx \<Longrightarrow> \<exists>err. InMemory_Save ctx v ident m = (Inl err, m, after 2 ctx)"
  by (auto dest!: not_live_2 simp: numeral_2_eq_2 InMemory_Save_def numeral_2_eq_2)

lemma InMemory_GetByID_live:
  "live 2 ctx \<Longrightarrow> InMemory_GetByID ctx ident m =
     (case map_of (data m) ident of
        None \<Rightarrow> (Inl ErrNotExists, m, after 2 ctx)
      | Some v \<Rightarrow> (Inr v, m, after 2 ctx))"
  by (auto simp: live_2_iff InMemory_GetByID_def numeral_2_eq_2 split: option.splits)

lemma InMemory_GetByID_fired:
  "\<not> live 2 ctx \<Longrightarrow> \<exists>err. InMemory_GetByID ctx ident m = (Inl err, m, after 2 ctx)"
  by (auto dest!: not_live_2 simp: numeral_2_eq_2 InMemory_GetByID_def numeral_2_eq_2)

lemma InMemory_GetAll_live:
  "live 2 ctx \<Longrightarrow> InMemory_GetAll ctx m =
     (Inr (map (\<lambda>(ident, v). Elem ident v) (data m)), m, after 2 ctx)"
  by (auto simp: live_2_iff InMemory_GetAll_def numeral_2_eq_2)

lemma InMemory_GetAll_fired:
  "\<not> live 2 ctx \<Longrightarrow> \<exists>err. InMemory_GetAll ctx m = (Inl err, m, after 2 ctx)"
  by (auto dest!: not_live_2 simp: numeral_2_eq_2 InMemory_GetAll_def numeral_2_eq_2)

lemma InMemory_Delete_live:
  "live 2 ctx \<Longrightarrow> InMemory_Delete ctx ident m =
     (case map_of (data m) ident of
        None \<Rightarrow> (Some ErrNotExists, m, after 2 ctx)
      | Some v \<Rightarrow> (None, m\<lparr>data := AList.delete ident (data m)\<rparr>, after 2 ctx))"
  by (auto simp: live_2_iff InMemory_Delete_def numeral_2_eq_2 split: option.splits)

lemma InMemory_Delete_fired:
  "\<not> live 2 ctx \<Longrightarrow> \<exists>err. InMemory_Delete ctx ident m = (Some err, m, after 2 ctx)"
  by (auto dest!: not_live_2 simp: numeral_2_eq_2 InMemory_Delete_def numeral_2_eq_2)

section \<open>Cancellation\<close>

text \<open>
  Claim C2. A storage operation (Save, GetByID, GetAll, Delete) called with a context
  that is done already (cancelled, or past its deadline) fails with the error the
  context reports, \<open>Canceled\<close> or \<open>DeadlineExceeded\<close>, and returns the store as it
  was: the same map and the same sequence counter.
\<close>

theorem cancelled_context_fails_without_mutation:
  "InMemory_Save (Done err) v ident m = (Inl err, m, Done err)
   \<and> InMemory_GetByID (Done err) ident m = (Inl err, m, Done err)
   \<and> InMemory_GetAll (Done err) m = (Inl err, m, Done err)
   \<and> InMemory_Delete (Done err) ident m = (Some err, m, Done err)"
  by (simp add: InMemory_Save_def InMemory_GetByID_def InMemory_GetAll_def InMemory_Delete_def)

section \<open>Identifier assignment\<close>

lemma upt_0_Suc_map: "[0..<Suc k] = 0 # map Suc [0..<k]"
  by (simp add: upt_conv_Cons map_Suc_upt del: upt_Suc)

lemma identifiers_auto_saves:
  "\<exists>k\<le>length calls.
     identifiers (auto_saves calls m) = map (\<lambda>j. serialID m + of_nat j) [0..<k]
     \<and> ((\<forall>(ctx, v) \<in> set calls. live 2 ctx) \<longrightarrow> k = length calls)"
proof (induction calls arbitrary: m)
  case Nil
  then show ?case by simp
next
  case (Cons c calls)
  obtain ctx v where c: "c = (ctx, v)" by (cases c)
  show ?case
  proof (cases "live 2 ctx")
    case True
    let ?m' = "m\<lparr>serialID := serialID m + 1, data := AList.update (serialID m) v (data m)\<rparr>"
    from Cons.IH [of ?m'] obtain k where k: "k \<le> length calls"
      "identifiers (auto_saves calls ?m') = map (\<lambda>j. serialID ?m' + of_nat j) [0..<k]"
      "(\<forall>(ctx, v) \<in> set calls. live 2 ctx) \<longrightarrow> k = length calls"
      by blast
    have "identifiers (auto_saves (c # calls) m)
        = serialID m # map (\<lambda>j. serialID m + 1 + of_nat j) [0..<k]"
      using True k(2) by (simp add: c InMemory_Save_live)
    also have "\<dots> = map (\<lambda>j. serialID m + of_nat j) [0..<Suc k]"
      by (simp only: upt_0_Suc_map) (simp add: comp_def add.assoc)
    finally show ?thesis
      using k(1) k(3) c by (intro exI [of _ "Suc k"]) auto
  next
    case False
    from InMemory_Save_fired [OF False, of v 0 m]
    obtain err where "InMemory_Save ctx v 0 m = (Inl err, m, after 2 ctx)" ..
    then have "identifiers (auto_saves (c # calls) m) = identifiers (auto_saves calls m)"
      by (simp add: c)
    moreover from Cons.IH [of m] obtain k where "k \<le> length calls"
      "identifiers (auto_saves calls m) = map (\<lambda>j. serialID m + of_nat j) [0..<k]"
      by blast
    ultimately show ?thesis
      using False c by (intro exI [of _ k]) auto
  qed
qed

lemma unat_of_nat_Suc_64: "j < 2 ^ 64 - 1 \<Longrightarrow> unat (1 + of_nat j :: uint64) = Suc j"
proof -
  assume "j < 2 ^ 64 - 1"
  then have "Suc j < 2 ^ 64" by simp
  then have "unat (of_nat (Suc j) :: uint64) = Suc j"
    by (intro of_nat_inverse [OF refl]) simp
  then show ?thesis by simp
qed


text \<open>
  Claim C1. On a freshly constructed store, the identifiers returned by a sequence of
  calls of Save with identifier 0 are pairwise distinct and strictly increasing in
  the order of the calls, and the first of them is 1; when no context fires, each of
  the \<open>N\<close> calls returns one. A call whose context has fired returns an error and no
  identifier, and does not disturb the sequence. The counter is a 64-bit word, so
  the statement is about fewer than \<open>2 ^ 64\<close> returned identifiers. Each of them
  is a new entry of the map, and the length of a Go map is an \<^verbatim>\<open>int\<close>: no run of
  the program returns that many.
\<close>

theorem auto_assigned_ids_increase:
  assumes "length (identifiers (auto_saves calls NewInMemory)) < 2 ^ 64"
  shows "distinct (identifiers (auto_saves calls NewInMemory))
    \<and> sorted_wrt (<) (identifiers (auto_saves calls NewInMemory))
    \<and> (identifiers (auto_saves calls NewInMemory) \<noteq> [] \<longrightarrow>
         hd (identifiers (auto_saves calls NewInMemory)) = 1)
    \<and> ((\<forall>(ctx, v) \<in> set calls. live 2 ctx) \<longrightarrow>
         length (identifiers (auto_saves calls NewInMemory)) = length calls)"
proof -
  let ?ids = "identifiers (auto_saves calls (NewInMemory :: 'a InMemory))"
  let ?f = "\<lambda>j. 1 + of_nat j :: uint64"
  from identifiers_auto_saves [of calls "NewInMemory :: 'a InMemory"]
  obtain k where k: "?ids = map ?f [0..<k]"
    "(\<forall>(ctx, v) \<in> set calls. live 2 ctx) \<longrightarrow> k = length calls"
    by (auto simp: NewInMemory_def)
  from k(1) have len: "length ?ids = k" by simp
  have un: "unat (?f j) = Suc j" if "j < k" for j
    using that len assms by (intro unat_of_nat_Suc_64) simp
  have "inj_on ?f (set [0..<k])"
  proof (rule inj_onI)
    fix i j assume "i \<in> set [0..<k]" "j \<in> set [0..<k]" "?f i = ?f j"
    then have "unat (?f i) = unat (?f j)" "i < k" "j < k" by simp_all
    then show "i = j" by (simp add: un)
  qed
  then have d: "distinct ?ids" by (simp add: k(1) distinct_map)
  have "sorted_wrt (\<lambda>i j. ?f i < ?f j) [0..<k]"
  proof (rule sorted_wrt_mono_rel [of _ "(<)"])
    fix i j assume "i \<in> set [0..<k]" "j \<in> set [0..<k]" "i < j"
    then show "?f i < ?f j" by (simp add: word_less_nat_alt un)
  qed simp
  then have s: "sorted_wrt (<) ?ids" by (simp add: k(1) sorted_wrt_map)
  have h: "?ids \<noteq> [] \<longrightarrow> hd ?ids = 1"
    by (simp add: k(1) hd_map)
  have l: "(\<forall>(ctx, v) \<in> set calls. live 2 ctx) \<longrightarrow> length ?ids = length calls"
    using len k(2) by simp
  from d s h l show ?thesis by blast
qed

theorem auto_assigned_ids_increase_witness:
  "distinct (identifiers (auto_saves
       [(Background, ''a''), (Done Canceled, ''b''), (NotYet Background, ''c''),
        (Background, ''d'')] NewInMemory))
   \<and> sorted_wrt (<) (identifiers (auto_saves
       [(Background, ''a''), (Done Canceled, ''b''), (NotYet Background, ''c''),
        (Background, ''d'')] NewInMemory))
   \<and> identifiers (auto_saves
       [(Background, ''a''), (Done Canceled, ''b''), (NotYet Background, ''c''),
        (Background, ''d'')] NewInMemory)
     = [1, 2, 3]"
proof -
  let ?calls = "[(Background, ''a''), (Done Canceled, ''b''), (NotYet Background, ''c''),
        (Background, ''d'')]"
  have ids: "identifiers (auto_saves ?calls NewInMemory) = [1, 2, 3]"
    by (simp add: InMemory_Save_def NewInMemory_def)
  then have len: "length (identifiers (auto_saves ?calls NewInMemory)) < 2 ^ 64" by simp
  from auto_assigned_ids_increase [OF len] ids show ?thesis by simp
qed

section \<open>Upsert at an explicit identifier\<close>

text \<open>
  Claim C4. For every value, every identifier other than 0 and every store, whether
  it holds the identifier or not, Save at the identifier succeeds and returns it, and
  a GetByID of the identifier right after returns the value. The contexts of the two
  calls do not fire during them (claim C2 is the other case).
\<close>

theorem save_then_get_returns_value:
  assumes "ident \<noteq> 0" and "live 2 ctx" and "live 2 ctx'"
  shows "fst (InMemory_Save ctx v ident m) = Inr ident
    \<and> fst (InMemory_GetByID ctx' ident (fst (snd (InMemory_Save ctx v ident m)))) = Inr v"
  using assms by (simp add: InMemory_Save_live InMemory_GetByID_live update_conv')

theorem save_then_get_returns_value_witness:
  "fst (InMemory_Save Background ''new'' 7 \<lparr>serialID = 1, data = [(7, ''old'')]\<rparr>) = Inr 7
    \<and> fst (InMemory_GetByID (NotYet (NotYet (Done Canceled))) 7
        (fst (snd (InMemory_Save Background ''new'' 7 \<lparr>serialID = 1, data = [(7, ''old'')]\<rparr>))))
      = Inr ''new''"
proof -
  have h1: "(7 :: uint64) \<noteq> 0" by simp
  have h2: "live 2 Background" by simp
  have h3: "live 2 (NotYet (NotYet (Done Canceled)))" by (simp add: numeral_2_eq_2)
  show ?thesis
    by (rule save_then_get_returns_value [OF h1 h2 h3])
qed

text \<open>
  Claim C9. For every identifier other than 0 and every store, Save stores the value
  at exactly that identifier (no other key of the map changes), returns the
  identifier and leaves the sequence counter as it was. So the identifier can
  collide with an auto-assigned one: when it is the counter's current value, the
  next Save with identifier 0 returns the same identifier and overwrites the value.
\<close>

theorem explicit_id_keeps_sequence:
  assumes "ident \<noteq> 0" and "live 2 ctx"
  shows "fst (InMemory_Save ctx v ident m) = Inr ident
    \<and> serialID (fst (snd (InMemory_Save ctx v ident m))) = serialID m
    \<and> map_of (data (fst (snd (InMemory_Save ctx v ident m)))) = (map_of (data m))(ident \<mapsto> v)
    \<and> (ident = serialID m \<and> live 2 ctx' \<longrightarrow>
         fst (InMemory_Save ctx' w 0 (fst (snd (InMemory_Save ctx v ident m)))) = Inr ident
         \<and> map_of (data (fst (snd (InMemory_Save ctx' w 0
               (fst (snd (InMemory_Save ctx v ident m))))))) ident = Some w)"
  using assms by (simp add: InMemory_Save_live update_conv')

theorem explicit_id_keeps_sequence_witness:
  "fst (InMemory_Save Background ''v'' 1 NewInMemory) = Inr 1
   \<and> serialID (fst (snd (InMemory_Save Background ''v'' 1 NewInMemory))) = 1
   \<and> fst (InMemory_Save Background ''w'' 0
        (fst (snd (InMemory_Save Background ''v'' 1 NewInMemory)))) = Inr 1
   \<and> map_of (data (fst (snd (InMemory_Save Background ''w'' 0
        (fst (snd (InMemory_Save Background ''v'' 1 NewInMemory))))))) 1 = Some ''w''"
proof -
  have h: "(1 :: uint64) \<noteq> 0" by simp
  have b: "live 2 Background" by simp
  from explicit_id_keeps_sequence [OF h b, of "''v''" NewInMemory Background "''w''"] b
  show ?thesis by (simp add: NewInMemory_def)
qed

section \<open>Deletion\<close>

text \<open>
  Claim C8. In every store that holds the identifier, Delete succeeds; a GetByID of
  the identifier after it fails with \<open>ErrNotExists\<close>, and so does a second Delete.
  The contexts of the three calls do not fire during them.
\<close>

theorem delete_is_final:
  assumes "map_of (data m) ident = Some v"
    and "live 2 ctx" and "live 2 ctx'" and "live 2 ctx''"
  shows "fst (InMemory_Delete ctx ident m) = None
    \<and> fst (InMemory_GetByID ctx' ident (fst (snd (InMemory_Delete ctx ident m))))
        = Inl ErrNotExists
    \<and> fst (InMemory_Delete ctx'' ident
          (fst (snd (InMemory_GetByID ctx' ident (fst (snd (InMemory_Delete ctx ident m)))))))
        = Some ErrNotExists"
  using assms
  by (simp add: InMemory_Delete_live InMemory_GetByID_live delete_conv')

theorem delete_is_final_witness:
  "fst (InMemory_Delete Background 5 \<lparr>serialID = 1, data = [(5, ''x'')]\<rparr>) = None
   \<and> fst (InMemory_GetByID Background 5
        (fst (snd (InMemory_Delete Background 5 \<lparr>serialID = 1, data = [(5, ''x'')]\<rparr>))))
      = Inl ErrNotExists
   \<and> fst (InMemory_Delete Background 5
        (fst (snd (InMemory_GetByID Background 5
          (fst (snd (InMemory_Delete Background 5 \<lparr>serialID = 1, data = [(5, ''x'')]\<rparr>)))))))
      = Some ErrNotExists"
proof -
  have h: "map_of (data \<lparr>serialID = 1 :: uint64, data = [(5 :: uint64, ''x'')]\<rparr>) 5 = Some ''x''"
    by simp
  have b: "live 2 Background" by simp
  show ?thesis by (rule delete_is_final [OF h b b b])
qed

section \<open>The service on the in-memory store\<close>

lemma service_simps:
  "Save (repo service) = InMemory_Save"
  "GetByID (repo service) = InMemory_GetByID"
  "GetAll (repo service) = InMemory_GetAll"
  "Delete (repo service) = InMemory_Delete"
  by (simp_all add: service_def NewTaskService_def InMemory_TaskStorage_def)

lemma set_update_subset: "set (AList.update k v al) \<subseteq> insert (k, v) (set al)"
  by (induction al) auto

lemma set_delete_subset: "set (AList.delete k al) \<subseteq> set al"
  by (auto simp: AList.delete_eq)

lemma InMemory_Save_data:
  "(k, x) \<in> set (data (fst (snd (InMemory_Save ctx v ident m))))
    \<Longrightarrow> x = v \<or> (k, x) \<in> set (data m)"
proof (cases "live 2 ctx")
  case True
  assume "(k, x) \<in> set (data (fst (snd (InMemory_Save ctx v ident m))))"
  with True show ?thesis
    using set_update_subset [of ident v "data m"] set_update_subset [of "serialID m" v "data m"]
    by (auto simp: InMemory_Save_live split: if_splits)
next
  case False
  assume "(k, x) \<in> set (data (fst (snd (InMemory_Save ctx v ident m))))"
  with InMemory_Save_fired [OF False, of v ident m] show ?thesis by auto
qed

lemma InMemory_GetByID_state: "fst (snd (InMemory_GetByID ctx ident m)) = m"
proof (cases "live 2 ctx")
  case True
  then show ?thesis by (simp add: InMemory_GetByID_live split: option.splits)
next
  case False
  with InMemory_GetByID_fired [OF False, of ident m] show ?thesis by auto
qed

lemma InMemory_GetAll_state: "fst (snd (InMemory_GetAll ctx m)) = m"
proof (cases "live 2 ctx")
  case True
  then show ?thesis by (simp add: InMemory_GetAll_live)
next
  case False
  with InMemory_GetAll_fired [OF False, of m] show ?thesis by auto
qed

lemma InMemory_Delete_data:
  "set (data (fst (snd (InMemory_Delete ctx ident m)))) \<subseteq> set (data m)"
proof (cases "live 2 ctx")
  case True
  then show ?thesis
    using set_delete_subset [of ident "data m"]
    by (auto simp: InMemory_Delete_live split: option.splits)
next
  case False
  with InMemory_Delete_fired [OF False, of ident m] show ?thesis by auto
qed

lemma Create_stores:
  assumes "(k, x) \<in> set (data (fst (snd (TaskService_Create service ctx title description m))))"
  shows "(k, x) \<in> set (data m)
    \<or> (x = \<lparr>Title = title, Description = description, IsDone = False\<rparr>
        \<and> TrimSpace title \<noteq> [])"
proof (cases "TrimSpace title = []")
  case True
  with assms show ?thesis
    by (simp add: TaskService_Create_def Validate_def)
next
  case False
  let ?task = "\<lparr>Title = title, Description = description, IsDone = False\<rparr>"
  obtain r m' c where s: "InMemory_Save ctx ?task 0 m = (r, m', c)"
    by (cases "InMemory_Save ctx ?task 0 m")
  with assms False have "(k, x) \<in> set (data m')"
    by (cases r) (simp_all add: TaskService_Create_def Validate_def service_simps)
  with InMemory_Save_data [of k x ctx ?task 0 m] s False show ?thesis by auto
qed

lemma Update_stores:
  assumes "(k, x) \<in> set (data (fst (snd
      (TaskService_Update service ctx ident title description isDone m))))"
  shows "(k, x) \<in> set (data m)
    \<or> (x = \<lparr>Title = title, Description = description, IsDone = isDone\<rparr>
        \<and> TrimSpace title \<noteq> [])"
proof -
  obtain r m' c where g: "InMemory_GetByID ctx ident m = (r, m', c)"
    by (cases "InMemory_GetByID ctx ident m")
  with InMemory_GetByID_state [of ctx ident m] have m': "m' = m" by simp
  show ?thesis
  proof (cases r)
    case (Inl err)
    with assms g m' show ?thesis
      by (simp add: TaskService_Update_def service_simps)
  next
    case (Inr old)
    let ?task = "old\<lparr>Title := title, Description := description, IsDone := isDone\<rparr>"
    have t: "?task = \<lparr>Title = title, Description = description, IsDone = isDone\<rparr>"
      by simp
    show ?thesis
    proof (cases "TrimSpace title = []")
      case True
      with assms g m' Inr show ?thesis
        by (simp add: TaskService_Update_def service_simps Validate_def)
    next
      case False
      obtain r' m'' c' where s: "InMemory_Save c ?task ident m = (r', m'', c')"
        by (cases "InMemory_Save c ?task ident m")
      with assms g m' Inr False have "(k, x) \<in> set (data m'')"
        by (cases r') (simp_all add: TaskService_Update_def service_simps Validate_def)
      with InMemory_Save_data [of k x c ?task ident m] s False t show ?thesis by auto
    qed
  qed
qed

lemma handle_preserves:
  assumes "\<forall>(k, x) \<in> set (data m). TrimSpace (Title x) \<noteq> []"
  shows "\<forall>(k, x) \<in> set (data (handle r m)). TrimSpace (Title x) \<noteq> []"
proof (cases r)
  case (CreateTask ctx title description)
  with assms show ?thesis by (auto dest!: Create_stores)
next
  case (GetTask ctx ident)
  have "handle r m = m"
    using InMemory_GetByID_state [of ctx ident m]
    by (cases "InMemory_GetByID ctx ident m"; cases "fst (InMemory_GetByID ctx ident m)")
       (simp_all add: GetTask TaskService_GetByID_def service_simps)
  with assms show ?thesis by simp
next
  case (ListTasks ctx)
  have "handle r m = m"
    using InMemory_GetAll_state [of ctx m]
    by (cases "InMemory_GetAll ctx m"; cases "fst (InMemory_GetAll ctx m)")
       (simp_all add: ListTasks TaskService_GetAll_def service_simps)
  with assms show ?thesis by simp
next
  case (UpdateTask ctx ident title description isDone)
  with assms show ?thesis by (auto dest!: Update_stores)
next
  case (DeleteTask ctx ident)
  have "handle r m = fst (snd (InMemory_Delete ctx ident m))"
    by (cases "InMemory_Delete ctx ident m"; cases "fst (InMemory_Delete ctx ident m)")
       (simp_all add: DeleteTask TaskService_Delete_def service_simps)
  with assms InMemory_Delete_data [of ctx ident m] show ?thesis by auto
qed

lemma serve_preserves:
  "\<forall>(k, x) \<in> set (data m). TrimSpace (Title x) \<noteq> []
    \<Longrightarrow> \<forall>(k, x) \<in> set (data (serve rs m)). TrimSpace (Title x) \<noteq> []"
proof (induction rs arbitrary: m)
  case Nil
  then show ?case by simp
next
  case (Cons r rs)
  from Cons.IH [OF handle_preserves [OF Cons.prems]] show ?case by simp
qed

text \<open>
  Claim C3. Every task in the store after any sequence of service operations (Create,
  Update, Delete, and the two reads) on the empty store has a title whose trimmed
  form is not empty, that is, a title with at least one character that is not white
  space: Create and Update validate before they save, and nothing else stores a task.
\<close>

theorem stored_titles_not_blank:
  "(ident, task) \<in> set (data (serve rs NewInMemory)) \<Longrightarrow> TrimSpace (Title task) \<noteq> []"
  using serve_preserves [of NewInMemory rs] by (auto simp: NewInMemory_def)


theorem stored_titles_not_blank_witness:
  "(1, \<lparr>Title = ''U '', Description = ''E'', IsDone = True\<rparr>)
     \<in> set (data (serve
         [CreateTask Background '' T'' ''D'', CreateTask Background ''  '' ''D'',
          UpdateTask Background 1 ''U '' ''E'' True, UpdateTask Background 1 [] ''F'' False]
         NewInMemory))
   \<and> TrimSpace ''U '' = ''U''"
proof -
  let ?rs = "[CreateTask Background '' T'' ''D'', CreateTask Background ''  '' ''D'',
          UpdateTask Background 1 ''U '' ''E'' True, UpdateTask Background 1 [] ''F'' False]"
  let ?task = "\<lparr>Title = ''U '', Description = ''E'', IsDone = True\<rparr>"
  have t1: "TrimSpace '' T'' = ''T''" by code_simp
  have t2: "TrimSpace ''  '' = []" by code_simp
  have t3: "TrimSpace ''U '' = ''U''" by code_simp
  have t4: "TrimSpace [] = []" by code_simp
  have mem: "(1, ?task) \<in> set (data (serve ?rs NewInMemory))"
    by (simp add: TaskService_Create_def TaskService_Update_def Validate_def service_simps
        InMemory_Save_def InMemory_GetByID_def NewInMemory_def Let_def t1 t2 t3 t4)
  from stored_titles_not_blank [OF mem] mem t3 show ?thesis by simp
qed

section \<open>The validation gate\<close>

text \<open>
  Claim C5, as stated, fails: Update of an identifier that the store does not hold,
  with the title of three spaces, fails with \<open>ErrNotExists\<close>, which is no validation
  error. Update reads the record before it validates.
\<close>

theorem update_absent_id_counterexample:
  "fst (TaskService_Update service Background 1 ''   '' ''D'' True NewInMemory)
     = Some ErrNotExists
   \<and> \<not> errors_Is ErrNotExists ErrEmptyTitle"
  by (simp add: TaskService_Update_def service_simps InMemory_GetByID_def NewInMemory_def)

text \<open>
  Claim C5, amended. For every title whose trimmed form is empty, the empty title and
  every title of white space only, Create fails with the validation error without a
  call of the storage, whatever the storage is: the state and the context come back
  untouched. Update with such a title fails with the validation error when the read
  of the identifier succeeds, and with the error of the read otherwise; in both cases
  Save is not called: the state returned is the one GetByID left. On the in-memory
  store, the store after such a Create or Update is the store before it; with a
  context that does not fire, the error of Update is the validation error when the
  identifier is present and \<open>ErrNotExists\<close> when it is absent. The empty title and the
  title of three spaces are two such titles.
\<close>

theorem invalid_title_never_saved:
  assumes "TrimSpace title = []"
  shows "TaskService_Create s ctx title description st
     = (Inl (Errorf ''validation failed: '' ErrEmptyTitle), st, ctx)
   \<and> (GetByID (repo s) ctx ident st = (Inr task, st', ctx') \<longrightarrow>
        TaskService_Update s ctx ident title description isDone st
          = (Some (Errorf ''validation failed: '' ErrEmptyTitle), st', ctx'))
   \<and> (GetByID (repo s) ctx ident st = (Inl err, st', ctx') \<longrightarrow>
        TaskService_Update s ctx ident title description isDone st = (Some err, st', ctx'))
   \<and> fst (snd (TaskService_Create service c title description m)) = m
   \<and> fst (snd (TaskService_Update service c ident title description isDone m)) = m
   \<and> (live 2 c \<and> map_of (data m) ident = Some old \<longrightarrow>
        fst (TaskService_Update service c ident title description isDone m)
          = Some (Errorf ''validation failed: '' ErrEmptyTitle))
   \<and> (live 2 c \<and> map_of (data m) ident = None \<longrightarrow>
        fst (TaskService_Update service c ident title description isDone m)
          = Some ErrNotExists)
   \<and> TrimSpace [] = [] \<and> TrimSpace ''   '' = []"
proof -
  note blank = assms
  have t0: "TrimSpace [] = []" by code_simp
  have t3: "TrimSpace ''   '' = []" by code_simp
  have a: "TaskService_Create s ctx title description st
     = (Inl (Errorf ''validation failed: '' ErrEmptyTitle), st, ctx)" for s :: "('x, 'y) TaskService"
      and ctx st
    by (simp add: TaskService_Create_def Validate_def blank)
  have b: "GetByID (repo s) ctx ident st = (Inr task, st', ctx') \<longrightarrow>
        TaskService_Update s ctx ident title description isDone st
          = (Some (Errorf ''validation failed: '' ErrEmptyTitle), st', ctx')"
    by (simp add: TaskService_Update_def Validate_def blank)
  have c: "GetByID (repo s) ctx ident st = (Inl err, st', ctx') \<longrightarrow>
        TaskService_Update s ctx ident title description isDone st = (Some err, st', ctx')"
    by (simp add: TaskService_Update_def)
  have d: "fst (snd (TaskService_Update service c ident title description isDone m)) = m"
    using InMemory_GetByID_state [of c ident m]
    by (cases "InMemory_GetByID c ident m"; cases "fst (InMemory_GetByID c ident m)")
       (simp_all add: TaskService_Update_def service_simps Validate_def blank)
  have e: "live 2 c \<and> map_of (data m) ident = Some old \<longrightarrow>
        fst (TaskService_Update service c ident title description isDone m)
          = Some (Errorf ''validation failed: '' ErrEmptyTitle)"
    by (simp add: TaskService_Update_def service_simps InMemory_GetByID_live Validate_def
        blank)
  have f: "live 2 c \<and> map_of (data m) ident = None \<longrightarrow>
        fst (TaskService_Update service c ident title description isDone m)
          = Some ErrNotExists"
    by (simp add: TaskService_Update_def service_simps InMemory_GetByID_live)
  have g: "fst (snd (TaskService_Create service c title description m)) = m"
    by (simp add: a)
  from a [of s ctx st] b c g d e f t0 t3 show ?thesis by blast
qed

theorem invalid_title_never_saved_witness:
  "TaskService_Create service Background [] ''E''
      \<lparr>serialID = 2, data = [(1, \<lparr>Title = ''T'', Description = ''D'', IsDone = False\<rparr>)]\<rparr>
     = (Inl (Errorf ''validation failed: '' ErrEmptyTitle),
        \<lparr>serialID = 2, data = [(1, \<lparr>Title = ''T'', Description = ''D'', IsDone = False\<rparr>)]\<rparr>,
        Background)
   \<and> TaskService_Update service Background 1 ''   '' ''E'' True
      \<lparr>serialID = 2, data = [(1, \<lparr>Title = ''T'', Description = ''D'', IsDone = False\<rparr>)]\<rparr>
     = (Some (Errorf ''validation failed: '' ErrEmptyTitle),
        \<lparr>serialID = 2, data = [(1, \<lparr>Title = ''T'', Description = ''D'', IsDone = False\<rparr>)]\<rparr>,
        Background)
   \<and> TaskService_Update service Background 9 [CHR 0x09, CHR 0xC2, CHR 0xA0] ''E'' True
      \<lparr>serialID = 2, data = [(1, \<lparr>Title = ''T'', Description = ''D'', IsDone = False\<rparr>)]\<rparr>
     = (Some ErrNotExists,
        \<lparr>serialID = 2, data = [(1, \<lparr>Title = ''T'', Description = ''D'', IsDone = False\<rparr>)]\<rparr>,
        Background)"
proof -
  let ?old = "\<lparr>Title = ''T'', Description = ''D'', IsDone = False\<rparr>"
  let ?m = "\<lparr>serialID = 2, data = [(1, ?old)]\<rparr> :: TaskSchema InMemory"
  have t0: "TrimSpace [] = []" by code_simp
  have t3: "TrimSpace ''   '' = []" by code_simp
  have tn: "TrimSpace [CHR 0x09, CHR 0xC2, CHR 0xA0] = []" by code_simp
  have g1: "GetByID (repo service) Background 1 ?m = (Inr ?old, ?m, Background)"
    by (simp add: service_simps InMemory_GetByID_def)
  have g9: "GetByID (repo service) Background 9 ?m = (Inl ErrNotExists, ?m, Background)"
    by (simp add: service_simps InMemory_GetByID_def)
  from invalid_title_never_saved
         [OF t0, where s = service and ctx = Background and st = ?m
            and description = "''E''"]
       invalid_title_never_saved
         [OF t3, where s = service and ctx = Background and st = ?m and ident = 1
            and task = ?old and st' = ?m and ctx' = Background and description = "''E''"
            and isDone = True]
       invalid_title_never_saved
         [OF tn, where s = service and ctx = Background and st = ?m and ident = 9
            and err = ErrNotExists and st' = ?m and ctx' = Background
            and description = "''E''" and isDone = True]
       g1 g9
  show ?thesis by simp
qed

section \<open>Round trip\<close>

text \<open>
  Claim C6. For every title whose trimmed form is not empty and every description,
  Create succeeds when its context does not fire, and after every successful Create
  a GetByID of the returned identifier (with a context that does not fire) yields the
  task with that title, that description, the completion flag false and the returned
  identifier; it is the task Create returned.
\<close>

theorem create_then_get_roundtrip:
  "(TrimSpace title \<noteq> [] \<and> live 2 ctx \<longrightarrow>
      fst (TaskService_Create service ctx title description m)
        = Inr \<lparr>Title = title, Description = description, IsDone = False, ID = serialID m\<rparr>)
   \<and> (TaskService_Create service ctx title description m = (Inr task, m', c)
         \<and> live 2 ctx' \<longrightarrow>
      fst (TaskService_GetByID service ctx' (ID task) m')
        = Inr \<lparr>Title = title, Description = description, IsDone = False, ID = ID task\<rparr>
      \<and> task = \<lparr>Title = title, Description = description, IsDone = False, ID = ID task\<rparr>)"
proof -
  let ?task = "\<lparr>Title = title, Description = description, IsDone = False\<rparr>"
  have a: "TrimSpace title \<noteq> [] \<and> live 2 ctx \<longrightarrow>
      fst (TaskService_Create service ctx title description m)
        = Inr \<lparr>Title = title, Description = description, IsDone = False, ID = serialID m\<rparr>"
    by (simp add: TaskService_Create_def Validate_def service_simps InMemory_Save_live
        mkTask_def)
  have b: "fst (TaskService_GetByID service ctx' (ID task) m')
        = Inr \<lparr>Title = title, Description = description, IsDone = False, ID = ID task\<rparr>
      \<and> task = \<lparr>Title = title, Description = description, IsDone = False, ID = ID task\<rparr>"
    if ok: "TaskService_Create service ctx title description m = (Inr task, m', c)"
      and l: "live 2 ctx'"
  proof -
    from ok have v: "TrimSpace title \<noteq> []"
      by (auto simp: TaskService_Create_def Validate_def split: if_splits)
    have lc: "live 2 ctx"
    proof (rule ccontr)
      assume n: "\<not> live 2 ctx"
      from InMemory_Save_fired [OF n, of ?task 0 m] ok v show False
        by (auto simp: TaskService_Create_def Validate_def service_simps)
    qed
    from ok v lc have t: "task = mkTask (serialID m) ?task"
      and m': "m' = m\<lparr>serialID := serialID m + 1,
                        data := AList.update (serialID m) ?task (data m)\<rparr>"
      by (auto simp: TaskService_Create_def Validate_def service_simps InMemory_Save_live
          Let_def)
    from t m' l show ?thesis
      by (simp add: TaskService_GetByID_def service_simps InMemory_GetByID_live update_conv'
          mkTask_def)
  qed
  from a b show ?thesis by blast
qed

theorem create_then_get_roundtrip_witness:
  "TaskService_Create service Background '' T '' ''D'' NewInMemory
     = (Inr \<lparr>Title = '' T '', Description = ''D'', IsDone = False, ID = 1\<rparr>,
        \<lparr>serialID = 2,
         data = [(1, \<lparr>Title = '' T '', Description = ''D'', IsDone = False\<rparr>)]\<rparr>, Background)
   \<and> fst (TaskService_GetByID service Background 1
        \<lparr>serialID = 2,
         data = [(1, \<lparr>Title = '' T '', Description = ''D'', IsDone = False\<rparr>)]\<rparr>)
     = Inr \<lparr>Title = '' T '', Description = ''D'', IsDone = False, ID = 1\<rparr>"
proof -
  let ?m' = "\<lparr>serialID = 2,
         data = [(1, \<lparr>Title = '' T '', Description = ''D'', IsDone = False\<rparr>)]\<rparr>
       :: TaskSchema InMemory"
  let ?task = "\<lparr>Title = '' T '', Description = ''D'', IsDone = False, ID = 1\<rparr>"
  have t: "TrimSpace '' T '' = ''T''" by code_simp
  have ok: "TaskService_Create service Background '' T '' ''D'' NewInMemory
     = (Inr ?task, ?m', Background)"
    by (simp add: TaskService_Create_def Validate_def service_simps InMemory_Save_def
        NewInMemory_def mkTask_def t)
  have l: "live 2 Background" by simp
  from create_then_get_roundtrip
         [of "'' T ''" Background "''D''" NewInMemory ?task ?m' Background Background]
       ok l
  show ?thesis by simp
qed


text \<open>
  Claim C10. For every title that validation accepts and every description, Create
  and Update store the two strings as they were given: the record found in the map
  afterwards carries exactly the title and the description of the call. Validation
  trims a copy only, so a stored title can begin or end with white space: the title
  \<open>'' a ''\<close> is accepted and differs from its trimmed form. Update is stated for an
  identifier other than 0, which the storage reads as "assign the next identifier".
\<close>

theorem titles_stored_verbatim:
  "(TrimSpace title \<noteq> [] \<and> live 2 ctx \<longrightarrow>
      fst (TaskService_Create service ctx title description m)
        = Inr \<lparr>Title = title, Description = description, IsDone = False, ID = serialID m\<rparr>
      \<and> map_of (data (fst (snd (TaskService_Create service ctx title description m))))
            (serialID m)
          = Some \<lparr>Title = title, Description = description, IsDone = False\<rparr>)
   \<and> (TrimSpace title \<noteq> [] \<and> ident \<noteq> 0 \<and> map_of (data m) ident = Some old
         \<and> live 4 ctx \<longrightarrow>
      fst (TaskService_Update service ctx ident title description isDone m) = None
      \<and> map_of (data (fst (snd
              (TaskService_Update service ctx ident title description isDone m)))) ident
          = Some \<lparr>Title = title, Description = description, IsDone = isDone\<rparr>)
   \<and> TrimSpace '' a '' = ''a''"
proof -
  have a: "TrimSpace title \<noteq> [] \<and> live 2 ctx \<longrightarrow>
      fst (TaskService_Create service ctx title description m)
        = Inr \<lparr>Title = title, Description = description, IsDone = False, ID = serialID m\<rparr>
      \<and> map_of (data (fst (snd (TaskService_Create service ctx title description m))))
            (serialID m)
          = Some \<lparr>Title = title, Description = description, IsDone = False\<rparr>"
    by (simp add: TaskService_Create_def Validate_def service_simps InMemory_Save_live
        mkTask_def update_conv')
  have b: "fst (TaskService_Update service ctx ident title description isDone m) = None
      \<and> map_of (data (fst (snd
              (TaskService_Update service ctx ident title description isDone m)))) ident
          = Some \<lparr>Title = title, Description = description, IsDone = isDone\<rparr>"
    if "TrimSpace title \<noteq> []" "ident \<noteq> 0" "map_of (data m) ident = Some old" "live 4 ctx"
  proof -
    from that(4) have l1: "live 2 ctx" by (rule live_le) simp
    from that(4) have l2: "live 2 (after 2 ctx)" by (intro live_after) simp
    from that(1-3) l1 l2 show ?thesis
      by (simp add: TaskService_Update_def Validate_def service_simps InMemory_GetByID_live
          InMemory_Save_live update_conv')
  qed
  have c: "TrimSpace '' a '' = ''a''" by code_simp
  from a b c show ?thesis by blast
qed

theorem titles_stored_verbatim_witness:
  "fst (TaskService_Create service Background '' a '' ''d '' NewInMemory)
     = Inr \<lparr>Title = '' a '', Description = ''d '', IsDone = False, ID = 1\<rparr>
   \<and> map_of (data (fst (snd (TaskService_Create service Background '' a '' ''d '' NewInMemory))))
       1
     = Some \<lparr>Title = '' a '', Description = ''d '', IsDone = False\<rparr>
   \<and> fst (TaskService_Update service Background 1 '' a '' '' e'' True
        \<lparr>serialID = 2, data = [(1, \<lparr>Title = ''T'', Description = ''D'', IsDone = False\<rparr>)]\<rparr>)
     = None
   \<and> map_of (data (fst (snd (TaskService_Update service Background 1 '' a '' '' e'' True
        \<lparr>serialID = 2, data = [(1, \<lparr>Title = ''T'', Description = ''D'', IsDone = False\<rparr>)]\<rparr>))))
       1
     = Some \<lparr>Title = '' a '', Description = '' e'', IsDone = True\<rparr>"
proof -
  let ?old = "\<lparr>Title = ''T'', Description = ''D'', IsDone = False\<rparr>"
  let ?m = "\<lparr>serialID = 2, data = [(1, ?old)]\<rparr> :: TaskSchema InMemory"
  have t: "TrimSpace '' a '' \<noteq> []" by code_simp
  have l2: "live 2 Background" and l4: "live 4 Background" by simp_all
  have i: "(1 :: uint64) \<noteq> 0" by simp
  have p: "map_of (data ?m) 1 = Some ?old" by simp
  from titles_stored_verbatim
         [where title = "'' a ''" and ctx = Background and description = "''d ''"
            and m = NewInMemory]
       t l2
  have c: "fst (TaskService_Create service Background '' a '' ''d '' NewInMemory)
     = Inr \<lparr>Title = '' a '', Description = ''d '', IsDone = False, ID = 1\<rparr>
   \<and> map_of (data (fst (snd (TaskService_Create service Background '' a '' ''d '' NewInMemory))))
       1
     = Some \<lparr>Title = '' a '', Description = ''d '', IsDone = False\<rparr>"
    by (simp add: NewInMemory_def)
  from titles_stored_verbatim
         [where title = "'' a ''" and ctx = Background and description = "'' e''"
            and m = ?m and ident = 1 and old = ?old and isDone = True]
       t l4 i p
  have u: "fst (TaskService_Update service Background 1 '' a '' '' e'' True ?m) = None
   \<and> map_of (data (fst (snd (TaskService_Update service Background 1 '' a '' '' e'' True ?m))))
       1
     = Some \<lparr>Title = '' a '', Description = '' e'', IsDone = True\<rparr>"
    by simp
  from c u show ?thesis by blast
qed

section \<open>Propagation of storage errors\<close>

text \<open>
  Claim C7, as stated, fails: the service's GetByID returns the storage error itself,
  here \<open>ErrNotExists\<close> for an absent identifier, and this error wraps nothing; no
  operation context is added.
\<close>

theorem get_error_not_wrapped_counterexample:
  "fst (InMemory_GetByID Background 1 (NewInMemory :: TaskSchema InMemory)) = Inl ErrNotExists
   \<and> fst (TaskService_GetByID service Background 1 NewInMemory) = Inl ErrNotExists
   \<and> Unwrap ErrNotExists = None"
  by (simp add: TaskService_GetByID_def service_simps InMemory_GetByID_def NewInMemory_def)

text \<open>
  Claim C7, amended. For every storage and every error it returns, the service
  operation returns an error too, never success and never another error: Create,
  GetAll and the Save step of Update return the error wrapped with the context of the
  operation; GetByID, Delete and the GetByID step of Update return the error itself.
  In both cases \<^verbatim>\<open>errors.Is\<close> still finds the storage error in what the service
  returns.
\<close>

theorem storage_errors_reach_caller:
  "(Validate \<lparr>Title = title, Description = description, IsDone = False\<rparr> = None
      \<and> Save (repo s) ctx \<lparr>Title = title, Description = description, IsDone = False\<rparr> 0 st
          = (Inl err, st', ctx') \<longrightarrow>
      TaskService_Create s ctx title description st
        = (Inl (Errorf ''failed to save task: '' err), st', ctx'))
   \<and> (GetAll (repo s) ctx st = (Inl err, st', ctx') \<longrightarrow>
      TaskService_GetAll s ctx st = (Inl (Errorf ''failed to get tasks: '' err), st', ctx'))
   \<and> (GetByID (repo s) ctx ident st = (Inr old, st', ctx')
      \<and> Validate (old\<lparr>Title := title, Description := description, IsDone := isDone\<rparr>) = None
      \<and> Save (repo s) ctx'
            (old\<lparr>Title := title, Description := description, IsDone := isDone\<rparr>) ident st'
          = (Inl err, st'', ctx'') \<longrightarrow>
      TaskService_Update s ctx ident title description isDone st
        = (Some (Errorf ''failed to update task: '' err), st'', ctx''))
   \<and> (GetByID (repo s) ctx ident st = (Inl err, st', ctx') \<longrightarrow>
      TaskService_GetByID s ctx ident st = (Inl err, st', ctx')
      \<and> TaskService_Update s ctx ident title description isDone st = (Some err, st', ctx'))
   \<and> (Delete (repo s) ctx ident st = (Some err, st', ctx') \<longrightarrow>
      TaskService_Delete s ctx ident st = (Some err, st', ctx'))
   \<and> errors_Is (Errorf msg err) err \<and> Unwrap (Errorf msg err) = Some err
   \<and> errors_Is err err"
proof -
  have is_refl: "errors_Is e e" for e by (cases e) simp_all
  then show ?thesis
    by (simp add: TaskService_Create_def TaskService_GetAll_def TaskService_Update_def
        TaskService_GetByID_def TaskService_Delete_def)
qed

theorem storage_errors_reach_caller_witness:
  "TaskService_Create service (Done Canceled) ''T'' ''D'' NewInMemory
     = (Inl (Errorf ''failed to save task: '' Canceled), NewInMemory, Done Canceled)
   \<and> TaskService_GetAll service (Done Canceled) NewInMemory
     = (Inl (Errorf ''failed to get tasks: '' Canceled), NewInMemory, Done Canceled)
   \<and> TaskService_GetByID service (Done Canceled) 1 NewInMemory
     = (Inl Canceled, NewInMemory, Done Canceled)
   \<and> TaskService_Update service (Done Canceled) 1 ''T'' ''D'' True NewInMemory
     = (Some Canceled, NewInMemory, Done Canceled)
   \<and> TaskService_Delete service (Done Canceled) 1 NewInMemory
     = (Some Canceled, NewInMemory, Done Canceled)
   \<and> errors_Is (Errorf ''failed to save task: '' Canceled) Canceled"
proof -
  let ?m = "NewInMemory :: TaskSchema InMemory"
  have t: "TrimSpace ''T'' = ''T''" by code_simp
  have v: "Validate \<lparr>Title = ''T'', Description = ''D'', IsDone = False\<rparr> = None"
    by (simp add: Validate_def t)
  have s: "Save (repo service) (Done Canceled)
      \<lparr>Title = ''T'', Description = ''D'', IsDone = False\<rparr> 0 ?m
      = (Inl Canceled, ?m, Done Canceled)"
    by (simp add: service_simps InMemory_Save_def)
  have a: "GetAll (repo service) (Done Canceled) ?m = (Inl Canceled, ?m, Done Canceled)"
    by (simp add: service_simps InMemory_GetAll_def)
  have g: "GetByID (repo service) (Done Canceled) 1 ?m = (Inl Canceled, ?m, Done Canceled)"
    by (simp add: service_simps InMemory_GetByID_def)
  have d: "Delete (repo service) (Done Canceled) 1 ?m = (Some Canceled, ?m, Done Canceled)"
    by (simp add: service_simps InMemory_Delete_def)
  from storage_errors_reach_caller
         [where s = service and ctx = "Done Canceled" and st = ?m and st' = ?m
            and ctx' = "Done Canceled" and err = Canceled and title = "''T''"
            and description = "''D''" and isDone = True and ident = 1
            and msg = "''failed to save task: ''"]
       v s a g d
  show ?thesis by simp
qed

end
